theory Spec2Isabelle
  imports Complex_Main "HOL-Library.Log_Nat" "HOL-Library.Multiset"
    "HOL-Library.Char_ord" "HOL-Library.List_Lexorder" "HOL-Library.Product_Lexorder"
begin

section \<open>JavaScript numbers and values\<close>

text \<open>
  A JavaScript \<^verbatim>\<open>number\<close> is an IEEE 754 binary64 value. The finite ones are
  rationals; the two zeros are not told apart (both are \<open>Finite 0\<close>), which no
  function below can observe.
\<close>

datatype number = Finite rat | NaN | PosInfinity | NegInfinity

text \<open>
  The values an expression of \<^verbatim>\<open>suggestPrice\<close> can hold at run time: \<^verbatim>\<open>undefined\<close>,
  a number, or an object (the functions and the object that every object literal
  inherits from \<^verbatim>\<open>Object.prototype\<close>).
\<close>

datatype jsvalue = Undefined | Number number | ObjectValue

text \<open>
  Rounding of a rational to the nearest binary64 value, ties to even: \<open>ilog2\<close> is the
  binary exponent, clamped at \<open>- 1022\<close> for the subnormal range, and the significand
  has 53 bits. A result of magnitude \<open>2 ^ 1024\<close> or more is an infinity.
\<close>

definition ilog2 :: "rat \<Rightarrow> int" where
  "ilog2 x = (case quotient_of x of (p, q) \<Rightarrow>
     let k = bitlen p - bitlen q in if 2 powi k \<le> x then k else k - 1)"

definition round_half_even :: "rat \<Rightarrow> int" where
  "round_half_even q = (let n = \<lfloor>q\<rfloor>; d = q - of_int n
     in if d < 1 / 2 then n else if 1 / 2 < d then n + 1
        else if even n then n else n + 1)"

definition double :: "rat \<Rightarrow> number" where
  "double x = (if x = 0 then Finite 0 else
     let a = \<bar>x\<bar>; e = max (ilog2 a) (- 1022); u = 2 powi (e - 52);
         m = of_int (round_half_even (a / u)) * u
     in if 2 powi 1024 \<le> m then (if 0 < x then PosInfinity else NegInfinity)
        else Finite (sgn x * m))"

text \<open>The operator \<^verbatim>\<open>*\<close> on numbers: the exact product, rounded.\<close>

fun times_number :: "number \<Rightarrow> number \<Rightarrow> number" where
  "times_number NaN _ = NaN"
| "times_number _ NaN = NaN"
| "times_number (Finite a) (Finite b) = double (a * b)"
| "times_number (Finite a) PosInfinity =
     (if a = 0 then NaN else if 0 < a then PosInfinity else NegInfinity)"
| "times_number (Finite a) NegInfinity =
     (if a = 0 then NaN else if 0 < a then NegInfinity else PosInfinity)"
| "times_number PosInfinity (Finite b) =
     (if b = 0 then NaN else if 0 < b then PosInfinity else NegInfinity)"
| "times_number NegInfinity (Finite b) =
     (if b = 0 then NaN else if 0 < b then NegInfinity else PosInfinity)"
| "times_number PosInfinity PosInfinity = PosInfinity"
| "times_number PosInfinity NegInfinity = NegInfinity"
| "times_number NegInfinity PosInfinity = NegInfinity"
| "times_number NegInfinity NegInfinity = PosInfinity"

text \<open>The operator \<^verbatim>\<open>>\<close> on numbers: false whenever an operand is \<open>NaN\<close>.\<close>

fun greater_number :: "number \<Rightarrow> number \<Rightarrow> bool" where
  "greater_number NaN _ = False"
| "greater_number _ NaN = False"
| "greater_number (Finite a) (Finite b) = (b < a)"
| "greater_number PosInfinity PosInfinity = False"
| "greater_number PosInfinity _ = True"
| "greater_number _ PosInfinity = False"
| "greater_number NegInfinity _ = False"
| "greater_number (Finite a) NegInfinity = True"

text \<open>
  \<^verbatim>\<open>Math.round\<close>: the nearest integer, a tie going towards \<open>+\<infinity>\<close>; \<open>NaN\<close> and the
  infinities are returned as they are.
\<close>

fun Math_round :: "number \<Rightarrow> number" where
  "Math_round (Finite x) = Finite (of_int \<lfloor>x + 1 / 2\<rfloor>)"
| "Math_round n = n"

text \<open>Truthiness (\<^verbatim>\<open>ToBoolean\<close>): \<^verbatim>\<open>undefined\<close>, zero and \<open>NaN\<close> are falsy.\<close>

fun ToBoolean :: "jsvalue \<Rightarrow> bool" where
  "ToBoolean Undefined = False"
| "ToBoolean (Number (Finite x)) = (x \<noteq> 0)"
| "ToBoolean (Number NaN) = False"
| "ToBoolean (Number _) = True"
| "ToBoolean ObjectValue = True"

text \<open>
  \<^verbatim>\<open>ToNumber\<close>, applied by \<^verbatim>\<open>*\<close> to its operands. The objects that can occur here are
  the members of \<^verbatim>\<open>Object.prototype\<close>; their primitive value is a string that is not a
  numeric literal, so all of them convert to \<open>NaN\<close>.
\<close>

fun ToNumber :: "jsvalue \<Rightarrow> number" where
  "ToNumber Undefined = NaN"
| "ToNumber (Number n) = n"
| "ToNumber ObjectValue = NaN"

text \<open>The operator \<^verbatim>\<open>||\<close>: the left operand when it is truthy, else the right one.\<close>

definition logical_or :: "jsvalue \<Rightarrow> jsvalue \<Rightarrow> jsvalue" where
  "logical_or a b = (if ToBoolean a then a else b)"

text \<open>
  The property names which an object literal inherits from \<^verbatim>\<open>Object.prototype\<close>.
  Each of them holds a function, \<^verbatim>\<open>__proto__\<close> the prototype object itself.
\<close>

definition objectPrototype :: "string list" where
  "objectPrototype =
     [''constructor'', ''hasOwnProperty'', ''isPrototypeOf'', ''propertyIsEnumerable'',
      ''toLocaleString'', ''toString'', ''valueOf'', ''__proto__'',
      ''__defineGetter__'', ''__defineSetter__'', ''__lookupGetter__'', ''__lookupSetter__'']"

text \<open>
  Reading \<^verbatim>\<open>table[key]\<close> on an object literal whose own properties are numbers: the
  own property if there is one, else the inherited one, else \<^verbatim>\<open>undefined\<close>.
\<close>

definition get_property :: "(string \<times> number) list \<Rightarrow> string \<Rightarrow> jsvalue" where
  "get_property table k =
     (case map_of table k of
        Some v \<Rightarrow> Number v
      | None \<Rightarrow> if k \<in> set objectPrototype then ObjectValue else Undefined)"

definition optional :: "number option \<Rightarrow> jsvalue" where
  "optional v = (case v of None \<Rightarrow> Undefined | Some n \<Rightarrow> Number n)"


section \<open>The price heuristic (promptBuilders.ts)\<close>

record ProductFacts =
  category :: string
  brand :: "string option"
  color :: "string option"
  condition :: string
  uniqueFeatures :: "string list"
  keywords_p :: "string list"
  estimatedPrice :: "number option"
  notes_p :: "string option"

definition basePrices :: "(string \<times> number) list" where
  "basePrices =
     [(''Electronics'', double 100),
      (''Clothing'', double 25),
      (''Furniture'', double 200),
      (''Books'', double 10),
      (''Sports'', double 50),
      (''Tools'', double 75),
      (''Toys'', double 20)]"

definition conditionMultiplier :: "(string \<times> number) list" where
  "conditionMultiplier =
     [(''New'', double 1),
      (''Like New'', double (85 / 100)),
      (''Good'', double (65 / 100)),
      (''Fair'', double (45 / 100)),
      (''Poor'', double (25 / 100))]"

text \<open>The result \<open>None\<close> stands for \<^verbatim>\<open>null\<close> of the declared type \<^verbatim>\<open>number | null\<close>.\<close>

definition suggestPrice :: "ProductFacts \<Rightarrow> number option" where
  "suggestPrice facts =
     (if ToBoolean (optional (estimatedPrice facts)) then estimatedPrice facts
      else
        let base = logical_or (get_property basePrices (category facts)) (Number (double 50));
            multiplier = logical_or (get_property conditionMultiplier (condition facts))
                           (Number (double (5 / 10)))
        in Some (Math_round (times_number (ToNumber base) (ToNumber multiplier))))"

text \<open>
  The heuristic in the words of its description, over exact rationals: a base price
  per category, a multiplier per condition, and rounding to the nearest integer.
\<close>

definition described_base :: "string \<Rightarrow> rat" where
  "described_base c =
     (if c = ''Electronics'' then 100 else if c = ''Clothing'' then 25
      else if c = ''Furniture'' then 200 else if c = ''Books'' then 10
      else if c = ''Sports'' then 50 else if c = ''Tools'' then 75
      else if c = ''Toys'' then 20 else 50)"

definition described_multiplier :: "string \<Rightarrow> rat" where
  "described_multiplier k =
     (if k = ''New'' then 1 else if k = ''Like New'' then 85 / 100
      else if k = ''Good'' then 65 / 100 else if k = ''Fair'' then 45 / 100
      else if k = ''Poor'' then 25 / 100 else 5 / 10)"

definition described_price :: "string \<Rightarrow> string \<Rightarrow> int" where
  "described_price c k = \<lfloor>described_base c * described_multiplier k + 1 / 2\<rfloor>"

definition nonneg_integer :: "number \<Rightarrow> bool" where
  "nonneg_integer n = (case n of Finite x \<Rightarrow> 0 \<le> x \<and> of_int \<lfloor>x\<rfloor> = x | _ \<Rightarrow> False)"

text \<open>Facts that carry only a category and a condition, as the tests build them.\<close>

definition facts_of :: "string \<Rightarrow> string \<Rightarrow> number option \<Rightarrow> ProductFacts" where
  "facts_of c k p =
     \<lparr>category = c, brand = None, color = None, condition = k,
      uniqueFeatures = [], keywords_p = [], estimatedPrice = p, notes_p = None\<rparr>"


section \<open>The listing store (indexeddb.ts)\<close>

text \<open>The operator \<^verbatim>\<open>>=\<close> on numbers: false whenever an operand is \<open>NaN\<close>.\<close>

fun ge_number :: "number \<Rightarrow> number \<Rightarrow> bool" where
  "ge_number NaN _ = False"
| "ge_number _ NaN = False"
| "ge_number (Finite a) (Finite b) = (b \<le> a)"
| "ge_number PosInfinity _ = True"
| "ge_number _ NegInfinity = True"
| "ge_number _ _ = False"

record ImageData =
  data :: string
  mimeType :: string

record VoiceData =
  data_v :: string
  mimeType_v :: string
  transcript :: "string option"

record ListingContent =
  title :: string
  description :: string
  keywords_c :: "string list"
  suggestedPrice :: "number option"

text \<open>
  A value of the type \<^verbatim>\<open>any\<close>: data that the structured clone of IndexedDB copies as
  it is, of a type \<open>'a\<close> the store never looks into, or a value that it refuses, as a
  function is.
\<close>

datatype 'a any = Data 'a | Function

record 'a StoredListing =
  id_key :: string
  createdAt :: number
  updatedAt :: number
  images :: "ImageData list"
  voiceNote :: "VoiceData option"
  content :: ListingContent
  facts :: "'a any option"
  variants :: "'a any list option"
  videoScript :: "'a any option"

datatype error = StorageUnavailable | DataCloneError

text \<open>
  How the browser answers a call of \<^verbatim>\<open>openDB\<close>: with a promise that resolves to a
  connection, with a promise that rejects, or by throwing before any promise is made
  (as \<^verbatim>\<open>indexedDB.open\<close> does where there is no \<^verbatim>\<open>indexedDB\<close>). A promise is given by
  the number of the open request it belongs to and by what it settles to.
\<close>

datatype indexedDB = Opens | Rejects | Throws

datatype promise = Connection nat | Rejection nat

text \<open>
  The state the module works on: the module variable \<^verbatim>\<open>dbPromise\<close> (\<open>None\<close> is
  \<^verbatim>\<open>null\<close>), the count of open requests made, which are the promises that \<^verbatim>\<open>openDB\<close>
  returned, the count of calls of \<^verbatim>\<open>openDB\<close>, and the records of the object store
  \<^verbatim>\<open>listings\<close> of the database \<^verbatim>\<open>marketmate-db\<close>, in ascending order of their key
  \<^verbatim>\<open>id\<close>.
\<close>

record 'a store =
  dbPromise :: "promise option"
  opened :: nat
  openDB_calls :: nat
  listings :: "'a StoredListing list"

fun openDB :: "indexedDB \<Rightarrow> nat \<Rightarrow> promise option" where
  "openDB Opens n = Some (Connection n)"
| "openDB Rejects n = Some (Rejection n)"
| "openDB Throws n = None"

text \<open>
  \<^verbatim>\<open>getDB\<close> returns the promise in \<^verbatim>\<open>dbPromise\<close>; the result \<open>None\<close> is the call in
  which \<^verbatim>\<open>openDB\<close> threw, so that nothing was assigned and the promise of the
  \<^verbatim>\<open>async\<close> function rejects. \<open>await_db\<close> is what \<^verbatim>\<open>await getDB()\<close> then gives.
\<close>

definition getDB :: "indexedDB \<Rightarrow> 'a store \<Rightarrow> promise option \<times> 'a store" where
  "getDB env s =
     (case dbPromise s of
        None \<Rightarrow>
          (case openDB env (opened s) of
             None \<Rightarrow> (None, s\<lparr>openDB_calls := Suc (openDB_calls s)\<rparr>)
           | Some p \<Rightarrow>
               (Some p, s\<lparr>dbPromise := Some p, opened := Suc (opened s),
                           openDB_calls := Suc (openDB_calls s)\<rparr>))
      | Some p \<Rightarrow> (Some p, s))"

fun await_db :: "promise option \<Rightarrow> error + nat" where
  "await_db None = Inl StorageUnavailable"
| "await_db (Some (Rejection n)) = Inl StorageUnavailable"
| "await_db (Some (Connection n)) = Inr n"

text \<open>
  The operations of the object store, whose key path is \<^verbatim>\<open>id\<close>. \<^verbatim>\<open>put\<close> clones the
  record, which fails on a value that cannot be cloned, and replaces the record of
  the same key or inserts a new one; \<^verbatim>\<open>get\<close> yields \<^verbatim>\<open>undefined\<close> (\<open>None\<close>) for a key
  that is not there; \<^verbatim>\<open>delete\<close> of such a key does nothing.
\<close>

fun cloneable_any :: "'a any \<Rightarrow> bool" where
  "cloneable_any (Data x) = True"
| "cloneable_any Function = False"

definition cloneable :: "'a StoredListing \<Rightarrow> bool" where
  "cloneable r =
     ((case facts r of None \<Rightarrow> True | Some v \<Rightarrow> cloneable_any v)
      \<and> (case variants r of None \<Rightarrow> True | Some vs \<Rightarrow> list_all cloneable_any vs)
      \<and> (case videoScript r of None \<Rightarrow> True | Some v \<Rightarrow> cloneable_any v))"

definition db_put ::
  "'a StoredListing \<Rightarrow> 'a StoredListing list \<Rightarrow> error + 'a StoredListing list" where
  "db_put r rs =
     (if cloneable r
      then Inr (insort_key id_key r (filter (\<lambda>x. id_key x \<noteq> id_key r) rs))
      else Inl DataCloneError)"

definition db_get :: "string \<Rightarrow> 'a StoredListing list \<Rightarrow> 'a StoredListing option" where
  "db_get i rs = find (\<lambda>x. id_key x = i) rs"

definition db_delete :: "string \<Rightarrow> 'a StoredListing list \<Rightarrow> 'a StoredListing list" where
  "db_delete i rs = filter (\<lambda>x. id_key x \<noteq> i) rs"

text \<open>
  The index \<^verbatim>\<open>by-date\<close> on \<^verbatim>\<open>createdAt\<close>. Every number but \<open>NaN\<close> is a valid key, and
  a record whose \<^verbatim>\<open>createdAt\<close> is no valid key is stored but not entered in the
  index. The index lists its records by key ascending (\<open>date_key\<close> gives the order
  of the keys), records of one key by their \<^verbatim>\<open>id\<close>.
\<close>

fun valid_key :: "number \<Rightarrow> bool" where
  "valid_key NaN = False"
| "valid_key n = True"

fun date_key :: "number \<Rightarrow> int \<times> rat" where
  "date_key NegInfinity = (- 1, 0)"
| "date_key (Finite x) = (0, x)"
| "date_key PosInfinity = (1, 0)"
| "date_key NaN = (2, 0)"

definition index_by_date :: "'a StoredListing list \<Rightarrow> 'a StoredListing list" where
  "index_by_date rs =
     sort_key (\<lambda>r. date_key (createdAt r)) (filter (\<lambda>r. valid_key (createdAt r)) rs)"

text \<open>
  \<^verbatim>\<open>saveListing\<close> takes the reading of the clock, an integer of milliseconds; it
  returns, beside its result, the caller's object as it is after the call.
\<close>

definition saveListing ::
  "indexedDB \<Rightarrow> int \<Rightarrow> 'a StoredListing \<Rightarrow> 'a store
     \<Rightarrow> (error + unit) \<times> 'a StoredListing \<times> 'a store" where
  "saveListing env now listing s =
     (case getDB env s of (p, s') \<Rightarrow>
        (case await_db p of
           Inl e \<Rightarrow> (Inl e, listing, s')
         | Inr db \<Rightarrow>
             let listing' = listing\<lparr>updatedAt := Finite (of_int now)\<rparr>
             in (case db_put listing' (listings s') of
                   Inl e \<Rightarrow> (Inl e, listing', s')
                 | Inr rs \<Rightarrow> (Inr (), listing', s'\<lparr>listings := rs\<rparr>))))"

definition getListing ::
  "indexedDB \<Rightarrow> string \<Rightarrow> 'a store \<Rightarrow> (error + 'a StoredListing option) \<times> 'a store" where
  "getListing env i s =
     (case getDB env s of (p, s') \<Rightarrow>
        (case await_db p of
           Inl e \<Rightarrow> (Inl e, s')
         | Inr db \<Rightarrow> (Inr (db_get i (listings s')), s')))"

definition getAllListings ::
  "indexedDB \<Rightarrow> 'a store \<Rightarrow> (error + 'a StoredListing list) \<times> 'a store" where
  "getAllListings env s =
     (case getDB env s of (p, s') \<Rightarrow>
        (case await_db p of
           Inl e \<Rightarrow> (Inl e, s')
         | Inr db \<Rightarrow> (Inr (rev (index_by_date (listings s'))), s')))"

definition deleteListing ::
  "indexedDB \<Rightarrow> string \<Rightarrow> 'a store \<Rightarrow> (error + unit) \<times> 'a store" where
  "deleteListing env i s =
     (case getDB env s of (p, s') \<Rightarrow>
        (case await_db p of
           Inl e \<Rightarrow> (Inl e, s')
         | Inr db \<Rightarrow> (Inr (), s'\<lparr>listings := db_delete i (listings s')\<rparr>)))"

definition clearAllListings :: "indexedDB \<Rightarrow> 'a store \<Rightarrow> (error + unit) \<times> 'a store" where
  "clearAllListings env s =
     (case getDB env s of (p, s') \<Rightarrow>
        (case await_db p of
           Inl e \<Rightarrow> (Inl e, s')
         | Inr db \<Rightarrow> (Inr (), s'\<lparr>listings := []\<rparr>)))"

text \<open>
  A run of the module: the exported functions called one after the other, each with
  the answer the browser would give to \<^verbatim>\<open>openDB\<close> at that moment, from the state in
  which the module is loaded (\<^verbatim>\<open>dbPromise\<close> is \<^verbatim>\<open>null\<close>, nothing opened yet).
\<close>

datatype 'a call =
    SaveListing int "'a StoredListing"
  | GetListing string
  | GetAllListings
  | DeleteListing string
  | ClearAllListings

fun exec :: "'a store \<Rightarrow> indexedDB \<times> 'a call \<Rightarrow> 'a store" where
  "exec s (env, SaveListing now listing) = snd (snd (saveListing env now listing s))"
| "exec s (env, GetListing i) = snd (getListing env i s)"
| "exec s (env, GetAllListings) = snd (getAllListings env s)"
| "exec s (env, DeleteListing i) = snd (deleteListing env i s)"
| "exec s (env, ClearAllListings) = snd (clearAllListings env s)"

definition run :: "'a store \<Rightarrow> (indexedDB \<times> 'a call) list \<Rightarrow> 'a store" where
  "run s cs = foldl exec s cs"

definition loaded :: "'a StoredListing list \<Rightarrow> 'a store" where
  "loaded rs = \<lparr>dbPromise = None, opened = 0, openDB_calls = 0, listings = rs\<rparr>"

text \<open>A listing as the tests of the store build it.\<close>

definition test_listing :: "string \<Rightarrow> number \<Rightarrow> number \<Rightarrow> unit StoredListing" where
  "test_listing i c u =
     \<lparr>id_key = i, createdAt = c, updatedAt = u, images = [], voiceNote = None,
      content = \<lparr>title = ''Test'', description = ''Test description'',
                 keywords_c = [''test''], suggestedPrice = None\<rparr>,
      facts = None, variants = None, videoScript = None\<rparr>"


section \<open>Rounding to binary64\<close>

text \<open>
  The exponent \<open>ilog2 x\<close> is the one with \<open>2 powi e \<le> x < 2 powi (e + 1)\<close>; with it,
  \<open>double\<close> of a positive rational is computed from its exponent alone.
\<close>

lemma bitlen_powi_bounds:
  assumes "0 < p"
  shows "2 powi (bitlen p - 1) \<le> (of_int p :: rat)" and "(of_int p :: rat) < 2 powi bitlen p"
proof -
  from bitlen_bounds[OF assms]
  have a: "2 ^ nat (bitlen p - 1) \<le> p" and b: "p < 2 ^ nat (bitlen p)" by auto
  have ge: "1 \<le> bitlen p" using assms by (simp add: bitlen_alt_def)
  have "(of_int (2 ^ nat (bitlen p - 1)) :: rat) \<le> of_int p" using a by (simp only: of_int_le_iff)
  then show "2 powi (bitlen p - 1) \<le> (of_int p :: rat)" using ge by (simp add: power_int_def)
  have "(of_int p :: rat) < of_int (2 ^ nat (bitlen p))" using b by (simp only: of_int_less_iff)
  then show "(of_int p :: rat) < 2 powi bitlen p" using ge by (simp add: power_int_def)
qed

lemma ilog2_bounds:
  assumes "0 < x"
  shows "2 powi ilog2 x \<le> x \<and> x < 2 powi (ilog2 x + 1)"
proof -
  obtain p q where pq: "quotient_of x = (p, q)" by (cases "quotient_of x")
  have q: "0 < q" using quotient_of_denom_pos[OF pq] .
  have x: "x = of_int p / of_int q" using quotient_of_div[OF pq] .
  have p: "0 < p" using assms q unfolding x by (simp add: zero_less_divide_iff)
  define k where "k = bitlen p - bitlen q"
  note P = bitlen_powi_bounds[OF p] and Q = bitlen_powi_bounds[OF q]
  have qr: "(0::rat) < of_int q" using q by simp
  have "2 powi (k - 1) * of_int q < (2 powi (k - 1) * 2 powi bitlen q :: rat)"
    using Q(2) by (intro mult_strict_left_mono) simp_all
  also have "\<dots> = 2 powi (bitlen p - 1)" by (simp add: k_def flip: power_int_add)
  also have "\<dots> \<le> of_int p" by (rule P(1))
  finally have lower: "2 powi (k - 1) < x" using qr unfolding x by (simp add: pos_less_divide_eq)
  have "(of_int p :: rat) < 2 powi bitlen p" by (rule P(2))
  also have "\<dots> = 2 powi (k + 1) * 2 powi (bitlen q - 1)" by (simp add: k_def flip: power_int_add)
  also have "\<dots> \<le> 2 powi (k + 1) * of_int q"
    using Q(1) by (intro mult_left_mono) simp_all
  finally have upper: "x < 2 powi (k + 1)" using qr unfolding x by (simp add: pos_divide_less_eq)
  show ?thesis
    using lower upper by (simp add: ilog2_def pq k_def [symmetric] Let_def not_le less_imp_le)
qed

lemma ilog2_unique:
  assumes "2 powi e \<le> x" and "x < 2 powi (e + 1)"
  shows "ilog2 x = e"
proof -
  have "0 < x" by (rule less_le_trans [OF _ assms(1)]) simp
  from ilog2_bounds[OF this] have i: "2 powi ilog2 x \<le> x" "x < 2 powi (ilog2 x + 1)" by auto
  have "(2::rat) powi e < 2 powi (ilog2 x + 1)" using assms(1) i(2) by simp
  then have a: "e < ilog2 x + 1"
    by (metis not_le power_int_increasing one_le_numeral)
  have "(2::rat) powi ilog2 x < 2 powi (e + 1)" using assms(2) i(1) by simp
  then have b: "ilog2 x < e + 1"
    by (metis not_le power_int_increasing one_le_numeral)
  from a b show ?thesis by simp
qed

lemma double_pos:
  assumes "2 powi e \<le> x" and "x < 2 powi (e + 1)" and "- 1022 \<le> e"
  shows "double x = (let u = 2 powi (e - 52); m = of_int (round_half_even (x / u)) * u
                     in if 2 powi 1024 \<le> m then PosInfinity else Finite m)"
proof -
  have x: "0 < x" by (rule less_le_trans [OF _ assms(1)]) simp
  have e: "ilog2 x = e" using assms(1,2) by (rule ilog2_unique)
  show ?thesis using x e assms(3) by (simp add: double_def Let_def max_def)
qed

text \<open>The literals of the two tables, and the products the heuristic can form.\<close>

lemma floor_rat_numeral [simp]:
  "\<lfloor>numeral a / numeral b :: rat\<rfloor> = numeral a div numeral b"
  by (metis floor_divide_of_int_eq of_int_numeral)

lemmas double_eval =
  double_pos [where e = "- 2"] double_pos [where e = "- 1"] double_pos [where e = 0]
  double_pos [where e = 1] double_pos [where e = 2] double_pos [where e = 3]
  double_pos [where e = 4] double_pos [where e = 5] double_pos [where e = 6]
  double_pos [where e = 7] round_half_even_def Let_def

lemma double_literals:
  "double 100 = Finite 100" "double 25 = Finite 25" "double 200 = Finite 200"
  "double 10 = Finite 10" "double 50 = Finite 50" "double 75 = Finite 75"
  "double 20 = Finite 20" "double 1 = Finite 1"
  "double (85 / 100) = Finite (7656119366529843 / 9007199254740992)"
  "double (65 / 100) = Finite (5854679515581645 / 9007199254740992)"
  "double (45 / 100) = Finite (8106479329266893 / 18014398509481984)"
  "double (25 / 100) = Finite (1 / 4)"
  "double (5 / 10) = Finite (1 / 2)"
  by (simp_all add: double_eval)

lemma double_literals_reduced:
  "double (17 / 20) = Finite (7656119366529843 / 9007199254740992)"
  "double (13 / 20) = Finite (5854679515581645 / 9007199254740992)"
  "double (9 / 20) = Finite (8106479329266893 / 18014398509481984)"
  "double (1 / 4) = Finite (1 / 4)"
  "double (1 / 2) = Finite (1 / 2)"
  by (simp_all add: double_eval)

lemma products_new:
  assumes "b \<in> {100, 25, 200, 10, 50, 75, 20}"
  shows "Math_round (times_number (Finite b) (Finite 1))
           = Finite (of_int \<lfloor>b * 1 + 1 / 2\<rfloor>)"
  using assms by (elim insertE emptyE; simp add: double_eval)

lemma products_like_new:
  assumes "b \<in> {100, 25, 200, 10, 50, 75, 20}"
  shows "Math_round (times_number (Finite b) (Finite (7656119366529843 / 9007199254740992)))
           = Finite (of_int \<lfloor>b * (85 / 100) + 1 / 2\<rfloor>)"
  using assms by (elim insertE emptyE; simp add: double_eval)

lemma products_good:
  assumes "b \<in> {100, 25, 200, 10, 50, 75, 20}"
  shows "Math_round (times_number (Finite b) (Finite (5854679515581645 / 9007199254740992)))
           = Finite (of_int \<lfloor>b * (65 / 100) + 1 / 2\<rfloor>)"
  using assms by (elim insertE emptyE; simp add: double_eval)

lemma products_fair:
  assumes "b \<in> {100, 25, 200, 10, 50, 75, 20}"
  shows "Math_round (times_number (Finite b) (Finite (8106479329266893 / 18014398509481984)))
           = Finite (of_int \<lfloor>b * (45 / 100) + 1 / 2\<rfloor>)"
  using assms by (elim insertE emptyE; simp add: double_eval)

lemma products_poor:
  assumes "b \<in> {100, 25, 200, 10, 50, 75, 20}"
  shows "Math_round (times_number (Finite b) (Finite (1 / 4)))
           = Finite (of_int \<lfloor>b * (25 / 100) + 1 / 2\<rfloor>)"
  using assms by (elim insertE emptyE; simp add: double_eval)

lemma products_other:
  assumes "b \<in> {100, 25, 200, 10, 50, 75, 20}"
  shows "Math_round (times_number (Finite b) (Finite (1 / 2)))
           = Finite (of_int \<lfloor>b * (5 / 10) + 1 / 2\<rfloor>)"
  using assms by (elim insertE emptyE; simp add: double_eval)


lemma product_rounds:
  assumes b: "b \<in> {100, 25, 200, 10, 50, 75, 20}"
    and m: "m \<in> {1, 85 / 100, 65 / 100, 45 / 100, 25 / 100, 5 / 10}"
  shows "Math_round (times_number (Finite b) (double m)) = Finite (of_int \<lfloor>b * m + 1 / 2\<rfloor>)"
proof -
  consider "m = 1" | "m = 85 / 100" | "m = 65 / 100" | "m = 45 / 100" | "m = 25 / 100" | "m = 5 / 10"
    using m by blast
  then show ?thesis
  proof cases
    case 1 then show ?thesis by (simp only: double_literals products_new [OF b])
  next
    case 2 then show ?thesis by (simp only: double_literals products_like_new [OF b])
  next
    case 3 then show ?thesis by (simp only: double_literals products_good [OF b])
  next
    case 4 then show ?thesis by (simp only: double_literals products_fair [OF b])
  next
    case 5 then show ?thesis by (simp only: double_literals products_poor [OF b])
  next
    case 6 then show ?thesis by (simp only: double_literals products_other [OF b])
  qed
qed

lemma described_base_cases: "described_base c \<in> {100, 25, 200, 10, 50, 75, 20}"
  by (simp add: described_base_def)

lemma described_multiplier_cases:
  "described_multiplier k \<in> {1, 85 / 100, 65 / 100, 45 / 100, 25 / 100, 5 / 10}"
  by (simp add: described_multiplier_def)

lemma base_lookup:
  assumes "c \<notin> set objectPrototype"
  shows "ToNumber (logical_or (get_property basePrices c) (Number (double 50)))
           = Finite (described_base c)"
  using assms
  by (simp add: get_property_def basePrices_def logical_or_def described_base_def double_literals)

lemma multiplier_lookup:
  assumes "k \<notin> set objectPrototype"
  shows "ToNumber (logical_or (get_property conditionMultiplier k) (Number (double (5 / 10))))
           = double (described_multiplier k)"
  using assms
  by (simp add: get_property_def conditionMultiplier_def logical_or_def described_multiplier_def
      double_literals double_literals_reduced)

section \<open>The price heuristic\<close>

text \<open>
  Where no truthy estimated price is given and neither the category nor the condition
  is the name of a member of \<^verbatim>\<open>Object.prototype\<close>, the binary64 computation of
  \<^verbatim>\<open>suggestPrice\<close> agrees with the described heuristic over exact rationals.
\<close>

lemma suggestPrice_heuristic:
  assumes "\<not> ToBoolean (optional (estimatedPrice f))"
    and "category f \<notin> set objectPrototype" and "condition f \<notin> set objectPrototype"
  shows "suggestPrice f = Some (Finite (of_int (described_price (category f) (condition f))))"
proof -
  have "Math_round (times_number (Finite (described_base (category f)))
          (double (described_multiplier (condition f))))
        = Finite (of_int (described_price (category f) (condition f)))"
    unfolding described_price_def
    by (rule product_rounds [OF described_base_cases described_multiplier_cases])
  then show ?thesis
    unfolding suggestPrice_def Let_def base_lookup [OF assms(2)] multiplier_lookup [OF assms(3)]
    using assms(1) by simp
qed

lemma described_price_books_good: "described_price ''Books'' ''Good'' = 7"
  by (simp add: described_price_def described_base_def described_multiplier_def)

lemma suggestPrice_books_good: "suggestPrice (facts_of ''Books'' ''Good'' None) = Some (Finite 7)"
  using suggestPrice_heuristic [of "facts_of ''Books'' ''Good'' None"]
  by (simp add: facts_of_def optional_def objectPrototype_def described_price_books_good)

lemma described_price_nonneg: "0 \<le> described_price c k"
proof -
  have "0 \<le> described_base c" using described_base_cases [of c] by auto
  moreover have "0 \<le> described_multiplier k" using described_multiplier_cases [of k] by auto
  ultimately have "0 \<le> described_base c * described_multiplier k + 1 / 2" by simp
  then show ?thesis unfolding described_price_def by simp
qed

lemma suggestPrice_nonneg_integer:
  assumes "estimatedPrice f = None"
    and "category f \<notin> set objectPrototype" and "condition f \<notin> set objectPrototype"
  shows "\<exists>n. suggestPrice f = Some n \<and> nonneg_integer n"
  using suggestPrice_heuristic [OF _ assms(2,3)] assms(1) described_price_nonneg
  by (simp add: optional_def nonneg_integer_def)

lemma described_price_new_poor: "described_price c ''Poor'' < described_price c ''New''"
  using described_base_cases [of c]
  by (auto simp add: described_price_def described_multiplier_def)

lemma suggestPrice_new_above_poor:
  assumes "c \<notin> set objectPrototype"
  shows "\<exists>n p. suggestPrice (facts_of c ''New'' None) = Some n
           \<and> suggestPrice (facts_of c ''Poor'' None) = Some p \<and> greater_number n p"
  using suggestPrice_heuristic [of "facts_of c ''New'' None"]
    suggestPrice_heuristic [of "facts_of c ''Poor'' None"] assms described_price_new_poor [of c]
  by (simp add: facts_of_def optional_def objectPrototype_def)

text \<open>
  C1, as amended. For every \<^verbatim>\<open>ProductFacts\<close> whose estimated price is present and truthy
  (a number other than zero and \<open>NaN\<close>), \<^verbatim>\<open>suggestPrice\<close> returns that estimated price
  unchanged, whatever the category and the condition are.
\<close>

theorem suggestPrice_estimated:
  assumes "estimatedPrice f = Some p" and "ToBoolean (Number p)"
  shows "suggestPrice f = Some p"
  using assms by (simp add: suggestPrice_def optional_def)

theorem suggestPrice_estimated_witness:
  "estimatedPrice (facts_of ''Electronics'' ''Good'' (Some (Finite 100))) = Some (Finite 100)
   \<and> ToBoolean (Number (Finite 100))
   \<and> suggestPrice (facts_of ''Electronics'' ''Good'' (Some (Finite 100))) = Some (Finite 100)"
  using suggestPrice_estimated [of "facts_of ''Electronics'' ''Good'' (Some (Finite 100))" "Finite 100"]
  by (simp add: facts_of_def)

text \<open>
  An estimated price of zero is present on the input but falsy: the guard
  \<^verbatim>\<open>if (facts.estimatedPrice)\<close> sends it to the table, and the result is 65, not 0.
\<close>

theorem suggestPrice_estimated_zero:
  "estimatedPrice (facts_of ''Electronics'' ''Good'' (Some (Finite 0))) = Some (Finite 0)
   \<and> suggestPrice (facts_of ''Electronics'' ''Good'' (Some (Finite 0))) = Some (Finite 65)
   \<and> suggestPrice (facts_of ''Electronics'' ''Good'' (Some (Finite 0)))
       \<noteq> estimatedPrice (facts_of ''Electronics'' ''Good'' (Some (Finite 0)))"
  using suggestPrice_heuristic [of "facts_of ''Electronics'' ''Good'' (Some (Finite 0))"]
  by (simp add: facts_of_def optional_def objectPrototype_def described_price_def
      described_base_def described_multiplier_def)

text \<open>
  C2. With no estimated price, \<^verbatim>\<open>suggestPrice\<close> is meant to be the rounded product of
  the base price of the category (50 for a category that is not in the table) and the
  multiplier of the condition. The category \<^verbatim>\<open>constructor\<close> is not in the table, yet
  \<^verbatim>\<open>basePrices[facts.category]\<close> finds the inherited function, which is truthy, so the
  default 50 is not taken and the product is \<open>NaN\<close>, where the description gives 50.
\<close>

theorem suggestPrice_inherited_category:
  "suggestPrice (facts_of ''constructor'' ''New'' None) = Some NaN
   \<and> described_price ''constructor'' ''New'' = 50"
  by (simp add: suggestPrice_def facts_of_def optional_def get_property_def basePrices_def
      conditionMultiplier_def objectPrototype_def logical_or_def double_literals
      described_price_def described_base_def described_multiplier_def)

text \<open>
  C3. With no estimated price, the value of \<^verbatim>\<open>suggestPrice\<close> is meant to be a
  non-negative integer. For the category \<^verbatim>\<open>toString\<close> it is \<open>NaN\<close>, which is none.
\<close>

theorem suggestPrice_not_integer:
  "suggestPrice (facts_of ''toString'' ''Good'' None) = Some NaN \<and> \<not> nonneg_integer NaN"
  by (simp add: suggestPrice_def facts_of_def optional_def get_property_def basePrices_def
      conditionMultiplier_def objectPrototype_def logical_or_def double_literals
      double_literals_reduced nonneg_integer_def)

text \<open>
  C4. For a fixed category, the price for the condition \<^verbatim>\<open>New\<close> is meant to be
  strictly greater than the price for \<^verbatim>\<open>Poor\<close>. For the category \<^verbatim>\<open>valueOf\<close> both
  are \<open>NaN\<close>, and \<open>NaN > NaN\<close> is false.
\<close>

theorem suggestPrice_new_not_above_poor:
  "suggestPrice (facts_of ''valueOf'' ''New'' None) = Some NaN
   \<and> suggestPrice (facts_of ''valueOf'' ''Poor'' None) = Some NaN
   \<and> \<not> greater_number NaN NaN"
  by (simp add: suggestPrice_def facts_of_def optional_def get_property_def basePrices_def
      conditionMultiplier_def objectPrototype_def logical_or_def double_literals
      double_literals_reduced)

text \<open>
  C10. The declared type of the result is \<^verbatim>\<open>number | null\<close>, but for every
  \<^verbatim>\<open>ProductFacts\<close> the function \<^verbatim>\<open>suggestPrice\<close> returns a number, never \<^verbatim>\<open>null\<close>.
\<close>

theorem suggestPrice_never_null: "suggestPrice f \<noteq> None"
  by (cases "estimatedPrice f") (simp_all add: suggestPrice_def optional_def Let_def)

theorem suggestPrice_never_null_witness:
  "suggestPrice (facts_of ''Books'' ''Good'' None) \<noteq> None
   \<and> suggestPrice (facts_of ''__proto__'' ''Good'' (Some NaN)) \<noteq> None"
  using suggestPrice_never_null [of "facts_of ''Books'' ''Good'' None"]
    suggestPrice_never_null [of "facts_of ''__proto__'' ''Good'' (Some NaN)"]
  by simp


section \<open>The listing store\<close>

text \<open>
  \<^verbatim>\<open>getDB\<close> leaves the records alone and keeps the promise it has once assigned;
  after it has returned a connection, each exported function does its work on the
  records.
\<close>

lemma getDB_listings: "listings (snd (getDB env s)) = listings s"
  by (simp add: getDB_def split: option.splits)

lemma getDB_cached: "dbPromise s = Some p \<Longrightarrow> getDB env s = (Some p, s)"
  by (simp add: getDB_def)

lemma getDB_promise:
  assumes "fst (getDB env s) = Some p"
  shows "dbPromise (snd (getDB env s)) = Some p"
  using assms by (auto simp add: getDB_def split: option.splits)

lemma await_db_connection: "await_db p = Inr db \<longleftrightarrow> p = Some (Connection db)"
  by (cases p rule: await_db.cases) auto

lemma getDB_connected:
  assumes "await_db (fst (getDB env s)) = Inr db"
  shows "getDB env s = (Some (Connection db), snd (getDB env s))"
    and "dbPromise (snd (getDB env s)) = Some (Connection db)"
proof -
  from assms have p: "fst (getDB env s) = Some (Connection db)"
    by (simp add: await_db_connection)
  then show "getDB env s = (Some (Connection db), snd (getDB env s))"
    by (simp add: prod_eq_iff)
  from p show "dbPromise (snd (getDB env s)) = Some (Connection db)"
    by (rule getDB_promise)
qed

lemma getDB_after:
  assumes "await_db (fst (getDB env s)) = Inr db"
  shows "await_db (fst (getDB env' ((snd (getDB env s))\<lparr>listings := rs\<rparr>))) = Inr db"
  using getDB_connected(2) [OF assms] by (simp add: getDB_def)

lemma find_insort_key:
  assumes "P r" and "\<forall>x \<in> set xs. \<not> P x"
  shows "find P (insort_key f r xs) = Some r"
  using assms by (induction xs) auto

lemma cloneable_updatedAt [simp]: "cloneable (r\<lparr>updatedAt := u\<rparr>) = cloneable r"
  by (simp add: cloneable_def)

lemma db_get_put:
  assumes "db_put r rs = Inr rs'"
  shows "db_get (id_key r) rs' = Some r"
  using assms by (auto simp add: db_get_def db_put_def find_insort_key split: if_splits)

lemma db_get_delete: "db_get i (db_delete i rs) = None"
  by (simp add: db_get_def db_delete_def find_None_iff)

lemma db_delete_absent: "i \<notin> id_key ` set rs \<Longrightarrow> db_delete i rs = rs"
  by (induction rs) (auto simp add: db_delete_def)

lemma mset_db_put:
  assumes "db_put r rs = Inr rs'"
  shows "mset rs' = add_mset r (filter_mset (\<lambda>x. id_key x \<noteq> id_key r) (mset rs))"
  using assms by (auto simp add: db_put_def split: if_splits)

lemma db_put_cloneable: "cloneable r \<Longrightarrow> \<exists>rs'. db_put r rs = Inr rs'"
  by (simp add: db_put_def)

lemma saveListing_connected:
  assumes "await_db (fst (getDB env s)) = Inr db"
  shows "saveListing env now L s =
           (case db_put (L\<lparr>updatedAt := Finite (of_int now)\<rparr>) (listings s) of
              Inl e \<Rightarrow> (Inl e, L\<lparr>updatedAt := Finite (of_int now)\<rparr>, snd (getDB env s))
            | Inr rs \<Rightarrow> (Inr (), L\<lparr>updatedAt := Finite (of_int now)\<rparr>,
                        (snd (getDB env s))\<lparr>listings := rs\<rparr>))"
proof -
  define s' where "s' = snd (getDB env s)"
  have "getDB env s = (Some (Connection db), s')" and "listings s' = listings s"
    using getDB_connected(1) [OF assms] getDB_listings [of env s] by (simp_all add: s'_def)
  then show ?thesis
    unfolding s'_def [symmetric] by (simp add: saveListing_def Let_def split: sum.splits)
qed

lemma saveListing_unavailable:
  assumes "await_db (fst (getDB env s)) = Inl e"
  shows "saveListing env now L s = (Inl e, L, snd (getDB env s))"
  using assms by (cases "getDB env s") (simp add: saveListing_def)

lemma getListing_connected:
  assumes "await_db (fst (getDB env s)) = Inr db"
  shows "getListing env i s = (Inr (db_get i (listings s)), snd (getDB env s))"
proof -
  define s' where "s' = snd (getDB env s)"
  have "getDB env s = (Some (Connection db), s')" and "listings s' = listings s"
    using getDB_connected(1) [OF assms] getDB_listings [of env s] by (simp_all add: s'_def)
  then show ?thesis
    unfolding s'_def [symmetric] by (simp add: getListing_def Let_def split: sum.splits)
qed

lemma getAllListings_connected:
  assumes "await_db (fst (getDB env s)) = Inr db"
  shows "getAllListings env s = (Inr (rev (index_by_date (listings s))), snd (getDB env s))"
proof -
  define s' where "s' = snd (getDB env s)"
  have "getDB env s = (Some (Connection db), s')" and "listings s' = listings s"
    using getDB_connected(1) [OF assms] getDB_listings [of env s] by (simp_all add: s'_def)
  then show ?thesis
    unfolding s'_def [symmetric] by (simp add: getAllListings_def Let_def split: sum.splits)
qed

lemma deleteListing_connected:
  assumes "await_db (fst (getDB env s)) = Inr db"
  shows "deleteListing env i s =
           (Inr (), (snd (getDB env s))\<lparr>listings := db_delete i (listings s)\<rparr>)"
proof -
  define s' where "s' = snd (getDB env s)"
  have "getDB env s = (Some (Connection db), s')" and "listings s' = listings s"
    using getDB_connected(1) [OF assms] getDB_listings [of env s] by (simp_all add: s'_def)
  then show ?thesis
    unfolding s'_def [symmetric] by (simp add: deleteListing_def Let_def split: sum.splits)
qed

lemma clearAllListings_connected:
  assumes "await_db (fst (getDB env s)) = Inr db"
  shows "clearAllListings env s = (Inr (), (snd (getDB env s))\<lparr>listings := []\<rparr>)"
proof -
  define s' where "s' = snd (getDB env s)"
  have "getDB env s = (Some (Connection db), s')" and "listings s' = listings s"
    using getDB_connected(1) [OF assms] getDB_listings [of env s] by (simp_all add: s'_def)
  then show ?thesis
    unfolding s'_def [symmetric] by (simp add: clearAllListings_def Let_def split: sum.splits)
qed

lemma getDB_after_same:
  assumes "await_db (fst (getDB env s)) = Inr db"
  shows "await_db (fst (getDB env' (snd (getDB env s)))) = Inr db"
  using getDB_connected(2) [OF assms] by (simp add: getDB_def)

lemma exec_connected:
  assumes "await_db (fst (getDB env s)) = Inr db"
  shows "await_db (fst (getDB env' (exec s (env, c)))) = Inr db"
    and "listings (exec s (env, c)) =
          (case c of
             SaveListing now L \<Rightarrow>
               (case db_put (L\<lparr>updatedAt := Finite (of_int now)\<rparr>) (listings s) of
                  Inl e \<Rightarrow> listings s | Inr rs \<Rightarrow> rs)
           | DeleteListing i \<Rightarrow> db_delete i (listings s)
           | ClearAllListings \<Rightarrow> []
           | _ \<Rightarrow> listings s)"
  using getDB_after [OF assms] getDB_after_same [OF assms] getDB_listings [of env s]
  by (cases c; simp add: saveListing_connected [OF assms] getListing_connected [OF assms]
      getAllListings_connected [OF assms] deleteListing_connected [OF assms]
      clearAllListings_connected [OF assms] split: sum.splits)+

text \<open>
  What an exported function does to \<^verbatim>\<open>dbPromise\<close> and to the two counts is what its
  call of \<^verbatim>\<open>getDB\<close> does: the code after the \<^verbatim>\<open>await\<close> touches none of them.
\<close>

lemma exec_handle:
  "dbPromise (exec s (env, c)) = dbPromise (snd (getDB env s))
   \<and> opened (exec s (env, c)) = opened (snd (getDB env s))
   \<and> openDB_calls (exec s (env, c)) = openDB_calls (snd (getDB env s))"
  by (cases c; cases "getDB env s")
    (simp_all add: saveListing_def getListing_def getAllListings_def deleteListing_def
      clearAllListings_def Let_def split: sum.splits)

text \<open>\<^verbatim>\<open>put\<close> and \<^verbatim>\<open>delete\<close> keep the records in ascending order of distinct keys.\<close>

lemma db_put_keys:
  assumes "sorted (map id_key rs)" and "distinct (map id_key rs)" and "db_put r rs = Inr rs'"
  shows "sorted (map id_key rs') \<and> distinct (map id_key rs')"
proof -
  let ?rs = "filter (\<lambda>x. id_key x \<noteq> id_key r) rs"
  have rs': "rs' = insort_key id_key r ?rs"
    using assms(3) by (auto simp add: db_put_def split: if_splits)
  have "sorted (map id_key ?rs)" using assms(1) by (rule sorted_filter)
  then have "sorted (map id_key (insort_key id_key r ?rs))" by (rule sorted_insort_key [THEN iffD2])
  moreover have "distinct (map id_key ?rs)" using assms(2) by (rule distinct_map_filter)
  then have "distinct (map id_key (insort_key id_key r ?rs))"
    by (induction rs) (auto simp add: set_insort_key distinct_map distinct_insort inj_on_def)
  ultimately show ?thesis by (simp add: rs')
qed

lemma db_delete_keys:
  assumes "sorted (map id_key rs)" and "distinct (map id_key rs)"
  shows "sorted (map id_key (db_delete i rs)) \<and> distinct (map id_key (db_delete i rs))"
  using assms by (simp add: db_delete_def sorted_filter distinct_map_filter)

text \<open>
  The index \<^verbatim>\<open>by-date\<close> holds the records with a valid \<^verbatim>\<open>createdAt\<close>, in the order of
  the keys, which is the order of \<^verbatim>\<open>>=\<close> on these numbers.
\<close>

lemma valid_key_iff: "valid_key n \<longleftrightarrow> n \<noteq> NaN"
  by (cases n) simp_all

lemma ge_number_date_key:
  assumes "valid_key a" and "valid_key b"
  shows "ge_number a b \<longleftrightarrow> date_key b \<le> date_key a"
  using assms by (cases a; cases b) (simp_all add: less_eq_prod_def)

lemma date_key_finite: "date_key n = (0, q) \<longleftrightarrow> n = Finite q"
  by (cases n) simp_all

lemma index_by_date_mset:
  "mset (index_by_date rs) = filter_mset (\<lambda>r. createdAt r \<noteq> NaN) (mset rs)"
  by (simp add: index_by_date_def valid_key_iff)

lemma index_by_date_valid: "r \<in> set (index_by_date rs) \<Longrightarrow> valid_key (createdAt r)"
  by (simp add: index_by_date_def)

lemma index_by_date_sorted: "sorted (map (\<lambda>r. date_key (createdAt r)) (index_by_date rs))"
  by (simp add: index_by_date_def)

lemma index_by_date_descending:
  "sorted_wrt (\<lambda>x y. ge_number (createdAt x) (createdAt y)) (rev (index_by_date rs))"
proof -
  have "sorted_wrt (\<lambda>x y. date_key (createdAt x) \<le> date_key (createdAt y)) (index_by_date rs)"
    using index_by_date_sorted [of rs] by (simp add: sorted_map)
  then have "sorted_wrt (\<lambda>x y. ge_number (createdAt y) (createdAt x)) (index_by_date rs)"
    by (rule sorted_wrt_mono_rel [rotated])
      (simp add: ge_number_date_key index_by_date_valid)
  then show ?thesis by (simp add: sorted_wrt_rev)
qed

lemma index_by_date_keys:
  "map (\<lambda>r. date_key (createdAt r)) (index_by_date rs)
     = sort (map (\<lambda>r. date_key (createdAt r)) (filter (\<lambda>r. valid_key (createdAt r)) rs))"
proof -
  have "mset (map (\<lambda>r. date_key (createdAt r)) (index_by_date rs))
          = mset (map (\<lambda>r. date_key (createdAt r)) (filter (\<lambda>r. valid_key (createdAt r)) rs))"
    by (simp add: index_by_date_def)
  then have "sort (map (\<lambda>r. date_key (createdAt r)) (filter (\<lambda>r. valid_key (createdAt r)) rs))
          = map (\<lambda>r. date_key (createdAt r)) (index_by_date rs)"
    using index_by_date_sorted [of rs] by (rule properties_for_sort)
  then show ?thesis by simp
qed

lemma exec_keeps:
  assumes "dbPromise s = Some p"
  shows "dbPromise (exec s ec) = Some p \<and> opened (exec s ec) = opened s
     \<and> openDB_calls (exec s ec) = openDB_calls s"
proof -
  obtain env c where ec: "ec = (env, c)" by (cases ec)
  have g: "getDB env s = (Some p, s)" using assms by (rule getDB_cached)
  show ?thesis unfolding ec
    using assms
    by (cases c; cases "await_db (Some p)")
      (simp_all add: g saveListing_def getListing_def getAllListings_def deleteListing_def
        clearAllListings_def Let_def split: sum.splits)
qed

lemma run_keeps:
  assumes "dbPromise s = Some p"
  shows "dbPromise (run s cs) = Some p \<and> opened (run s cs) = opened s"
  using assms unfolding run_def
proof (induction cs arbitrary: s)
  case Nil
  then show ?case by simp
next
  case (Cons c cs)
  from exec_keeps [OF Cons.prems, of c] Cons.IH [of "exec s c"] show ?case by simp
qed

lemma exec_promise:
  assumes "await_db (fst (getDB env s)) = Inr db"
  shows "dbPromise (exec s (env, c)) = Some (Connection db)"
  using getDB_connected(2) [OF assms]
  by (cases c) (simp_all add: saveListing_connected [OF assms] getListing_connected [OF assms]
      getAllListings_connected [OF assms] deleteListing_connected [OF assms]
      clearAllListings_connected [OF assms] split: sum.splits)

lemma run_connected:
  assumes "await_db (fst (getDB env s)) = Inr db"
  shows "await_db (fst (getDB env' (run s ((env, c) # cs)))) = Inr db"
proof -
  have "dbPromise (exec s (env, c)) = Some (Connection db)"
    using assms by (rule exec_promise)
  then have "dbPromise (run s ((env, c) # cs)) = Some (Connection db)"
    using run_keeps [of "exec s (env, c)" "Connection db" cs] by (simp add: run_def)
  then show ?thesis by (simp add: getDB_cached)
qed

lemma three_saves:
  assumes db: "await_db (fst (getDB env s)) = Inr db"
    and ids: "distinct [id_key a, id_key b, id_key c]"
    and cl: "cloneable a" "cloneable b" "cloneable c"
  shows "mset (listings (run s [(env, ClearAllListings), (e1, SaveListing t1 a),
            (e2, SaveListing t2 b), (e3, SaveListing t3 c)]))
         = {#a\<lparr>updatedAt := Finite (of_int t1)\<rparr>, b\<lparr>updatedAt := Finite (of_int t2)\<rparr>,
             c\<lparr>updatedAt := Finite (of_int t3)\<rparr>#}"
proof -
  let ?a = "a\<lparr>updatedAt := Finite (of_int t1)\<rparr>"
  let ?b = "b\<lparr>updatedAt := Finite (of_int t2)\<rparr>"
  let ?c = "c\<lparr>updatedAt := Finite (of_int t3)\<rparr>"
  let ?s0 = "exec s (env, ClearAllListings)"
  let ?s1 = "exec ?s0 (e1, SaveListing t1 a)"
  let ?s2 = "exec ?s1 (e2, SaveListing t2 b)"
  let ?s3 = "exec ?s2 (e3, SaveListing t3 c)"
  have d0: "await_db (fst (getDB e1 ?s0)) = Inr db" using db by (rule exec_connected(1))
  have d1: "await_db (fst (getDB e2 ?s1)) = Inr db" using d0 by (rule exec_connected(1))
  have d2: "await_db (fst (getDB e3 ?s2)) = Inr db" using d1 by (rule exec_connected(1))
  obtain r1 where r1: "db_put ?a [] = Inr r1" using db_put_cloneable [of ?a] cl by auto
  obtain r2 where r2: "db_put ?b r1 = Inr r2" using db_put_cloneable [of ?b] cl by auto
  obtain r3 where r3: "db_put ?c r2 = Inr r3" using db_put_cloneable [of ?c] cl by auto
  have l0: "listings ?s0 = []" using exec_connected(2) [OF db, of ClearAllListings] by simp
  have l1: "listings ?s1 = r1"
    using exec_connected(2) [OF d0, of "SaveListing t1 a"] l0 r1 by simp
  have l2: "listings ?s2 = r2"
    using exec_connected(2) [OF d1, of "SaveListing t2 b"] l1 r2 by simp
  have l3: "listings ?s3 = r3"
    using exec_connected(2) [OF d2, of "SaveListing t3 c"] l2 r3 by simp
  have "mset r3 = {#?a, ?b, ?c#}"
    using mset_db_put [OF r1] mset_db_put [OF r2] mset_db_put [OF r3] ids by simp
  then show ?thesis using l3 by (simp add: run_def)
qed

lemma three_keys:
  assumes "mset rs = {#a, b, c#}"
    and "createdAt a = Finite 1000" "createdAt b = Finite 2000" "createdAt c = Finite 3000"
  shows "map createdAt (rev (index_by_date rs)) = [Finite 3000, Finite 2000, Finite 1000]"
proof -
  let ?k = "\<lambda>r. date_key (createdAt r)"
  have "mset (filter (\<lambda>r. valid_key (createdAt r)) rs) = {#a, b, c#}"
    using assms by simp
  then have "mset (map ?k (filter (\<lambda>r. valid_key (createdAt r)) rs))
      = mset [(0, 1000), (0, 2000), (0, 3000)]"
    using assms(2-4) by simp
  then have "sort (map ?k (filter (\<lambda>r. valid_key (createdAt r)) rs))
      = [(0, 1000), (0, 2000), (0, 3000)]"
    by (intro properties_for_sort) (simp_all add: less_eq_prod_def)
  then have "map ?k (index_by_date rs) = [(0, 1000), (0, 2000), (0, 3000)]"
    by (simp add: index_by_date_keys)
  then have "map createdAt (index_by_date rs) = [Finite 1000, Finite 2000, Finite 3000]"
    by (auto simp add: map_eq_Cons_conv date_key_finite)
  then show ?thesis by (simp add: rev_map [symmetric])
qed

lemma exec_once:
  assumes "(dbPromise s = None \<and> opened s = 0) \<or> (dbPromise s \<noteq> None \<and> opened s = 1)"
  shows "(dbPromise (exec s ec) = None \<and> opened (exec s ec) = 0)
     \<or> (dbPromise (exec s ec) \<noteq> None \<and> opened (exec s ec) = 1)"
proof (cases "dbPromise s")
  case (Some p)
  then show ?thesis using exec_keeps [OF Some, of ec] assms by simp
next
  case None
  obtain env c where ec: "ec = (env, c)" by (cases ec)
  show ?thesis unfolding ec using None assms
    by (cases c; cases env)
      (simp_all add: saveListing_def getListing_def getAllListings_def deleteListing_def
        clearAllListings_def getDB_def Let_def split: sum.splits)
qed

lemma run_once:
  assumes "(dbPromise s = None \<and> opened s = 0) \<or> (dbPromise s \<noteq> None \<and> opened s = 1)"
  shows "(dbPromise (run s cs) = None \<and> opened (run s cs) = 0)
     \<or> (dbPromise (run s cs) \<noteq> None \<and> opened (run s cs) = 1)"
  using assms unfolding run_def
proof (induction cs arbitrary: s)
  case Nil
  then show ?case by simp
next
  case (Cons c cs)
  from exec_once [OF Cons.prems, of c] show ?case using Cons.IH [of "exec s c"] by simp
qed

lemmas store_eval =
  saveListing_def getListing_def getAllListings_def deleteListing_def clearAllListings_def
  getDB_def loaded_def db_put_def db_get_def db_delete_def index_by_date_def cloneable_def
  test_listing_def Let_def run_def

section \<open>Properties of the listing store\<close>

text \<open>
  C5, as amended. For every listing \<open>L\<close> that can be cloned, with the database open,
  \<^verbatim>\<open>saveListing(L)\<close> resolves and the \<^verbatim>\<open>getListing(L.id)\<close> that follows returns a record
  equal to \<open>L\<close> in every field except \<^verbatim>\<open>updatedAt\<close>, which is the reading of the clock
  that the save took; it is at least the \<^verbatim>\<open>updatedAt\<close> that \<open>L\<close> had before the save
  exactly when that reading is.
\<close>

theorem save_then_get:
  assumes "await_db (fst (getDB env s)) = Inr db" and "cloneable L"
    and "saveListing env now L s = (r, L', s')"
  shows "r = Inr ()
     \<and> (\<exists>R. fst (getListing env' (id_key L) s') = Inr (Some R)
            \<and> R = L\<lparr>updatedAt := Finite (of_int now)\<rparr>
            \<and> (ge_number (updatedAt R) (updatedAt L)
                 \<longleftrightarrow> ge_number (Finite (of_int now)) (updatedAt L)))"
proof -
  let ?L = "L\<lparr>updatedAt := Finite (of_int now)\<rparr>"
  obtain rs where rs: "db_put ?L (listings s) = Inr rs"
    using db_put_cloneable [of ?L] assms(2) by auto
  from assms(3) have r: "r = Inr ()" and s': "s' = (snd (getDB env s))\<lparr>listings := rs\<rparr>"
    by (auto simp add: saveListing_connected [OF assms(1)] rs)
  have "await_db (fst (getDB env' s')) = Inr db"
    unfolding s' using assms(1) by (rule getDB_after)
  then have "fst (getListing env' (id_key L) s') = Inr (db_get (id_key L) (listings s'))"
    by (simp add: getListing_connected)
  also have "db_get (id_key L) (listings s') = Some ?L"
    using db_get_put [OF rs] by (simp add: s')
  finally show ?thesis using r by simp
qed

theorem save_then_get_witness:
  "await_db (fst (getDB Opens (loaded ([] :: unit StoredListing list)))) = Inr 0
   \<and> cloneable (test_listing ''listing_1'' (Finite 1000) (Finite 1000))
   \<and> saveListing Opens 3000 (test_listing ''listing_1'' (Finite 1000) (Finite 1000)) (loaded [])
       = (Inr (), test_listing ''listing_1'' (Finite 1000) (Finite 3000),
          \<lparr>dbPromise = Some (Connection 0), opened = 1, openDB_calls = 1,
           listings = [test_listing ''listing_1'' (Finite 1000) (Finite 3000)]\<rparr>)
   \<and> fst (getListing Throws ''listing_1''
         \<lparr>dbPromise = Some (Connection 0), opened = 1, openDB_calls = 1,
          listings = [test_listing ''listing_1'' (Finite 1000) (Finite 3000)]\<rparr>)
       = Inr (Some (test_listing ''listing_1'' (Finite 1000) (Finite 3000)))
   \<and> ge_number (updatedAt (test_listing ''listing_1'' (Finite 1000) (Finite 3000)))
        (updatedAt (test_listing ''listing_1'' (Finite 1000) (Finite 1000)))"
proof -
  have h1: "await_db (fst (getDB Opens (loaded ([] :: unit StoredListing list)))) = Inr 0"
    by (simp add: store_eval)
  have h2: "cloneable (test_listing ''listing_1'' (Finite 1000) (Finite 1000))"
    by (simp add: store_eval)
  have h3: "saveListing Opens 3000 (test_listing ''listing_1'' (Finite 1000) (Finite 1000))
        (loaded [])
       = (Inr (), test_listing ''listing_1'' (Finite 1000) (Finite 3000),
          \<lparr>dbPromise = Some (Connection 0), opened = 1, openDB_calls = 1,
           listings = [test_listing ''listing_1'' (Finite 1000) (Finite 3000)]\<rparr>)"
    by (simp add: store_eval)
  from save_then_get [OF h1 h2 h3, of Throws] show ?thesis
    using h1 h2 h3 by (simp add: test_listing_def)
qed

text \<open>
  A listing dated ahead of the clock, as the second listing of the test of
  \<^verbatim>\<open>getAllListings\<close> is (\<^verbatim>\<open>updatedAt: Date.now() + 1000\<close>), comes back with a smaller
  \<^verbatim>\<open>updatedAt\<close> than it had before the save.
\<close>

theorem save_then_get_future:
  "saveListing Opens 1000 (test_listing ''listing_2'' (Finite 2000) (Finite 2000)) (loaded [])
       = (Inr (), test_listing ''listing_2'' (Finite 2000) (Finite 1000),
          \<lparr>dbPromise = Some (Connection 0), opened = 1, openDB_calls = 1,
           listings = [test_listing ''listing_2'' (Finite 2000) (Finite 1000)]\<rparr>)
   \<and> fst (getListing Opens ''listing_2''
         \<lparr>dbPromise = Some (Connection 0), opened = 1, openDB_calls = 1,
          listings = [test_listing ''listing_2'' (Finite 2000) (Finite 1000)]\<rparr>)
       = Inr (Some (test_listing ''listing_2'' (Finite 2000) (Finite 1000)))
   \<and> \<not> ge_number (updatedAt (test_listing ''listing_2'' (Finite 2000) (Finite 1000)))
          (updatedAt (test_listing ''listing_2'' (Finite 2000) (Finite 2000)))"
  by (simp add: store_eval)

text \<open>
  C6. With the database open, \<^verbatim>\<open>deleteListing(id)\<close> succeeds for every id, saved
  before or not, and leaves the records as they are when none has that id; the
  \<^verbatim>\<open>getListing(id)\<close> that follows returns \<^verbatim>\<open>undefined\<close>, the not-found result, and
  does not throw.
\<close>

theorem delete_then_get:
  assumes "await_db (fst (getDB env s)) = Inr db" and "deleteListing env i s = (r, s')"
  shows "r = Inr () \<and> fst (getListing env' i s') = Inr None
     \<and> (i \<notin> id_key ` set (listings s) \<longrightarrow> listings s' = listings s)"
proof -
  from assms have r: "r = Inr ()"
    and s': "s' = (snd (getDB env s))\<lparr>listings := db_delete i (listings s)\<rparr>"
    by (auto simp add: deleteListing_connected)
  have "await_db (fst (getDB env' s')) = Inr db"
    unfolding s' using assms(1) by (rule getDB_after)
  then have "fst (getListing env' i s') = Inr (db_get i (listings s'))"
    by (simp add: getListing_connected)
  then show ?thesis using r by (simp add: s' db_get_delete db_delete_absent)
qed

theorem delete_then_get_witness:
  "await_db (fst (getDB Opens
       (loaded [test_listing ''listing_1'' (Finite 1000) (Finite 1000)]))) = Inr 0
   \<and> deleteListing Opens ''listing_1''
         (loaded [test_listing ''listing_1'' (Finite 1000) (Finite 1000)])
       = (Inr (), \<lparr>dbPromise = Some (Connection 0), opened = 1, openDB_calls = 1,
                   listings = []\<rparr>)
   \<and> fst (getListing Throws ''listing_1''
         \<lparr>dbPromise = Some (Connection 0), opened = 1, openDB_calls = 1, listings = []\<rparr>)
       = (Inr None :: error + unit StoredListing option)
   \<and> deleteListing Opens ''listing_9''
         (loaded [test_listing ''listing_1'' (Finite 1000) (Finite 1000)])
       = (Inr (), \<lparr>dbPromise = Some (Connection 0), opened = 1, openDB_calls = 1,
                   listings = [test_listing ''listing_1'' (Finite 1000) (Finite 1000)]\<rparr>)
   \<and> fst (getListing Throws ''listing_9''
         \<lparr>dbPromise = Some (Connection 0), opened = 1, openDB_calls = 1,
          listings = [test_listing ''listing_1'' (Finite 1000) (Finite 1000)]\<rparr>) = Inr None"
proof -
  let ?s = "loaded [test_listing ''listing_1'' (Finite 1000) (Finite 1000)]"
  have h: "await_db (fst (getDB Opens ?s)) = Inr 0" by (simp add: store_eval)
  have d1: "deleteListing Opens ''listing_1'' ?s
       = (Inr (), \<lparr>dbPromise = Some (Connection 0), opened = 1, openDB_calls = 1,
                   listings = []\<rparr>)"
    by (simp add: store_eval)
  have d9: "deleteListing Opens ''listing_9'' ?s
       = (Inr (), \<lparr>dbPromise = Some (Connection 0), opened = 1, openDB_calls = 1,
                   listings = [test_listing ''listing_1'' (Finite 1000) (Finite 1000)]\<rparr>)"
    by (simp add: store_eval)
  from delete_then_get [OF h d1, of Throws] delete_then_get [OF h d9, of Throws] show ?thesis
    using h d1 d9 by simp
qed

text \<open>
  C7, as amended. With the database open, \<^verbatim>\<open>getAllListings\<close> returns every stored
  record whose \<^verbatim>\<open>createdAt\<close> is not \<open>NaN\<close>, each as often as it is stored (so records
  of one \<^verbatim>\<open>createdAt\<close> are all there), ordered by \<^verbatim>\<open>createdAt\<close> descending. In
  particular, after listings of distinct ids that can be cloned, with \<^verbatim>\<open>createdAt\<close>
  1000, 2000 and 3000, are saved into the cleared store, the result has the
  \<^verbatim>\<open>createdAt\<close> values 3000, 2000, 1000 in this order.
\<close>

theorem getAllListings_newest_first:
  assumes "await_db (fst (getDB env s)) = Inr db"
  shows "(\<exists>rs. fst (getAllListings env s) = Inr rs
            \<and> mset rs = filter_mset (\<lambda>r. createdAt r \<noteq> NaN) (mset (listings s))
            \<and> sorted_wrt (\<lambda>x y. ge_number (createdAt x) (createdAt y)) rs)
     \<and> (createdAt a = Finite 1000 \<and> createdAt b = Finite 2000 \<and> createdAt c = Finite 3000
          \<and> distinct [id_key a, id_key b, id_key c]
          \<and> cloneable a \<and> cloneable b \<and> cloneable c \<longrightarrow>
        (\<exists>rs. fst (getAllListings e4 (run s [(env, ClearAllListings), (e1, SaveListing t1 a),
                   (e2, SaveListing t2 b), (e3, SaveListing t3 c)])) = Inr rs
            \<and> map createdAt rs = [Finite 3000, Finite 2000, Finite 1000]))"
proof (intro conjI impI)
  show "\<exists>rs. fst (getAllListings env s) = Inr rs
          \<and> mset rs = filter_mset (\<lambda>r. createdAt r \<noteq> NaN) (mset (listings s))
          \<and> sorted_wrt (\<lambda>x y. ge_number (createdAt x) (createdAt y)) rs"
    using index_by_date_descending [of "listings s"]
    by (simp add: getAllListings_connected [OF assms] index_by_date_mset)
next
  let ?s = "run s [(env, ClearAllListings), (e1, SaveListing t1 a), (e2, SaveListing t2 b),
      (e3, SaveListing t3 c)]"
  assume h: "createdAt a = Finite 1000 \<and> createdAt b = Finite 2000 \<and> createdAt c = Finite 3000
    \<and> distinct [id_key a, id_key b, id_key c] \<and> cloneable a \<and> cloneable b \<and> cloneable c"
  have db: "await_db (fst (getDB e4 ?s)) = Inr db" using assms by (rule run_connected)
  have m: "mset (listings ?s) = {#a\<lparr>updatedAt := Finite (of_int t1)\<rparr>,
      b\<lparr>updatedAt := Finite (of_int t2)\<rparr>, c\<lparr>updatedAt := Finite (of_int t3)\<rparr>#}"
    using assms h by (intro three_saves) simp_all
  have "map createdAt (rev (index_by_date (listings ?s)))
      = [Finite 3000, Finite 2000, Finite 1000]"
    by (rule three_keys [OF m]) (simp_all add: h)
  then show "\<exists>rs. fst (getAllListings e4 ?s) = Inr rs
      \<and> map createdAt rs = [Finite 3000, Finite 2000, Finite 1000]"
    by (simp add: getAllListings_connected [OF db])
qed

theorem getAllListings_newest_first_witness:
  "await_db (fst (getDB Opens (loaded [test_listing ''b'' (Finite 2000) (Finite 2000),
       test_listing ''c'' (Finite 2000) (Finite 2000), test_listing ''d'' NaN (Finite 2000)])))
     = Inr 0
   \<and> (\<exists>rs. fst (getAllListings Opens
                (loaded [test_listing ''b'' (Finite 2000) (Finite 2000),
                   test_listing ''c'' (Finite 2000) (Finite 2000),
                   test_listing ''d'' NaN (Finite 2000)])) = Inr rs
          \<and> mset rs = {#test_listing ''b'' (Finite 2000) (Finite 2000),
                         test_listing ''c'' (Finite 2000) (Finite 2000)#}
          \<and> sorted_wrt (\<lambda>x y. ge_number (createdAt x) (createdAt y)) rs)
   \<and> createdAt (test_listing ''x'' (Finite 1000) (Finite 1000)) = Finite 1000
   \<and> createdAt (test_listing ''y'' (Finite 2000) (Finite 2000)) = Finite 2000
   \<and> createdAt (test_listing ''z'' (Finite 3000) (Finite 3000)) = Finite 3000
   \<and> distinct [id_key (test_listing ''x'' (Finite 1000) (Finite 1000)),
        id_key (test_listing ''y'' (Finite 2000) (Finite 2000)),
        id_key (test_listing ''z'' (Finite 3000) (Finite 3000))]
   \<and> cloneable (test_listing ''x'' (Finite 1000) (Finite 1000))
   \<and> cloneable (test_listing ''y'' (Finite 2000) (Finite 2000))
   \<and> cloneable (test_listing ''z'' (Finite 3000) (Finite 3000))
   \<and> (\<exists>rs. fst (getAllListings Throws
               (run (loaded [test_listing ''b'' (Finite 2000) (Finite 2000),
                   test_listing ''c'' (Finite 2000) (Finite 2000),
                   test_listing ''d'' NaN (Finite 2000)])
                  [(Opens, ClearAllListings),
                   (Opens, SaveListing 4000 (test_listing ''x'' (Finite 1000) (Finite 1000))),
                   (Rejects, SaveListing 4001 (test_listing ''y'' (Finite 2000) (Finite 2000))),
                   (Throws, SaveListing 4002 (test_listing ''z'' (Finite 3000) (Finite 3000)))]))
             = Inr rs
          \<and> map createdAt rs = [Finite 3000, Finite 2000, Finite 1000])"
proof -
  let ?s = "loaded [test_listing ''b'' (Finite 2000) (Finite 2000),
    test_listing ''c'' (Finite 2000) (Finite 2000), test_listing ''d'' NaN (Finite 2000)]"
  have h: "await_db (fst (getDB Opens ?s)) = Inr 0" by (simp add: store_eval)
  have l: "filter_mset (\<lambda>r. createdAt r \<noteq> NaN) (mset (listings ?s))
      = {#test_listing ''b'' (Finite 2000) (Finite 2000),
          test_listing ''c'' (Finite 2000) (Finite 2000)#}"
    by (simp add: loaded_def test_listing_def)
  have c: "createdAt (test_listing ''x'' (Finite 1000) (Finite 1000)) = Finite 1000"
    "createdAt (test_listing ''y'' (Finite 2000) (Finite 2000)) = Finite 2000"
    "createdAt (test_listing ''z'' (Finite 3000) (Finite 3000)) = Finite 3000"
    "distinct [id_key (test_listing ''x'' (Finite 1000) (Finite 1000)),
        id_key (test_listing ''y'' (Finite 2000) (Finite 2000)),
        id_key (test_listing ''z'' (Finite 3000) (Finite 3000))]"
    "cloneable (test_listing ''x'' (Finite 1000) (Finite 1000))"
    "cloneable (test_listing ''y'' (Finite 2000) (Finite 2000))"
    "cloneable (test_listing ''z'' (Finite 3000) (Finite 3000))"
    by (simp_all add: test_listing_def cloneable_def)
  from getAllListings_newest_first [OF h, of "test_listing ''x'' (Finite 1000) (Finite 1000)"
      "test_listing ''y'' (Finite 2000) (Finite 2000)"
      "test_listing ''z'' (Finite 3000) (Finite 3000)" Throws Opens 4000 Rejects 4001 Throws 4002]
  show ?thesis using h c unfolding l by simp
qed

text \<open>
  A listing whose \<^verbatim>\<open>createdAt\<close> is \<open>NaN\<close> is saved and found by its id, but it is not
  in the index \<^verbatim>\<open>by-date\<close>, so \<^verbatim>\<open>getAllListings\<close> does not return it; and where
  \<^verbatim>\<open>openDB\<close> throws, \<^verbatim>\<open>getAllListings\<close> rejects and returns no record at all.
\<close>

theorem getAllListings_omits_nan:
  "saveListing Opens 2000 (test_listing ''listing_1'' NaN (Finite 1000)) (loaded [])
       = (Inr (), test_listing ''listing_1'' NaN (Finite 2000),
          \<lparr>dbPromise = Some (Connection 0), opened = 1, openDB_calls = 1,
           listings = [test_listing ''listing_1'' NaN (Finite 2000)]\<rparr>)
   \<and> fst (getListing Opens ''listing_1''
         \<lparr>dbPromise = Some (Connection 0), opened = 1, openDB_calls = 1,
          listings = [test_listing ''listing_1'' NaN (Finite 2000)]\<rparr>)
       = Inr (Some (test_listing ''listing_1'' NaN (Finite 2000)))
   \<and> fst (getAllListings Opens
         \<lparr>dbPromise = Some (Connection 0), opened = 1, openDB_calls = 1,
          listings = [test_listing ''listing_1'' NaN (Finite 2000)]\<rparr>) = Inr []
   \<and> fst (getAllListings Throws
         (loaded [test_listing ''listing_1'' (Finite 1000) (Finite 1000)]))
       = Inl StorageUnavailable"
  by (simp add: store_eval)

text \<open>
  C8, as amended. From the loaded module on, whatever exported functions are called
  in whatever order and whatever the browser answers: at most one open request is
  ever made, so at most one connection is constructed; a call of \<^verbatim>\<open>getDB\<close> in which
  \<^verbatim>\<open>openDB\<close> does not throw returns a promise; and once a call has returned a
  promise, every later call returns that same promise, pending, resolved or rejected.
\<close>

theorem getDB_once:
  "opened (run (loaded rs) cs) \<le> 1
   \<and> (env \<noteq> Throws \<longrightarrow> fst (getDB env (run (loaded rs) cs)) \<noteq> None)
   \<and> (fst (getDB env (run (loaded rs) cs)) = Some p \<longrightarrow>
        fst (getDB env' (run (snd (getDB env (run (loaded rs) cs))) cs')) = Some p
        \<and> opened (run (snd (getDB env (run (loaded rs) cs))) cs') = 1)"
proof (intro conjI impI)
  let ?t = "run (loaded rs) cs"
  have inv: "(dbPromise ?t = None \<and> opened ?t = 0) \<or> (dbPromise ?t \<noteq> None \<and> opened ?t = 1)"
    by (rule run_once) (simp add: loaded_def)
  then show "opened ?t \<le> 1" by auto
  show "fst (getDB env ?t) \<noteq> None" if "env \<noteq> Throws"
    using that by (cases env) (simp_all add: getDB_def split: option.splits)
  assume p: "fst (getDB env ?t) = Some p"
  then have d: "dbPromise (snd (getDB env ?t)) = Some p" by (rule getDB_promise)
  have o: "opened (snd (getDB env ?t)) = 1"
    using inv p by (auto simp add: getDB_def split: option.splits)
  from run_keeps [OF d, of cs']
  show "fst (getDB env' (run (snd (getDB env ?t)) cs')) = Some p"
    and "opened (run (snd (getDB env ?t)) cs') = 1"
    using o by (simp_all add: getDB_cached)
qed

theorem getDB_once_witness:
  "Opens \<noteq> Throws
   \<and> fst (getDB Opens (run (loaded ([] :: unit StoredListing list)) [(Throws, GetAllListings)]))
       \<noteq> None
   \<and> fst (getDB Throws (run (loaded [])
      [(Throws, GetAllListings),
       (Opens, SaveListing 1000 (test_listing ''listing_1'' (Finite 1000) (Finite 1000)))]))
     = Some (Connection 0)
   \<and> opened (run (loaded [])
      [(Throws, GetAllListings),
       (Opens, SaveListing 1000 (test_listing ''listing_1'' (Finite 1000) (Finite 1000)))]) \<le> 1
   \<and> fst (getDB Rejects (run (snd (getDB Throws (run (loaded [])
      [(Throws, GetAllListings),
       (Opens, SaveListing 1000 (test_listing ''listing_1'' (Finite 1000) (Finite 1000)))])))
      [(Throws, GetListing ''listing_1''), (Rejects, DeleteListing ''listing_1'')]))
     = Some (Connection 0)
   \<and> opened (run (snd (getDB Throws (run (loaded [])
      [(Throws, GetAllListings),
       (Opens, SaveListing 1000 (test_listing ''listing_1'' (Finite 1000) (Finite 1000)))])))
      [(Throws, GetListing ''listing_1''), (Rejects, DeleteListing ''listing_1'')]) = 1"
proof -
  let ?cs = "[(Throws, GetAllListings),
       (Opens, SaveListing 1000 (test_listing ''listing_1'' (Finite 1000) (Finite 1000)))]"
  have h: "fst (getDB Throws (run (loaded []) ?cs)) = Some (Connection 0)"
    by (simp add: store_eval)
  from getDB_once [of "[]" ?cs Throws "Connection 0" Rejects
      "[(Throws, GetListing ''listing_1''), (Rejects, DeleteListing ''listing_1'')]"]
    getDB_once [of "[] :: unit StoredListing list" "[(Throws, GetAllListings)]" Opens]
  show ?thesis using h by simp
qed

text \<open>
  A first call of \<^verbatim>\<open>getDB\<close> in which \<^verbatim>\<open>openDB\<close> throws creates no promise and assigns
  nothing, so the second call returns a promise that the first call did not create;
  and after two such calls \<^verbatim>\<open>openDB\<close> has been called twice.
\<close>

theorem getDB_throws_then_opens:
  "fst (getDB Throws (loaded ([] :: unit StoredListing list))) = None
   \<and> fst (getDB Opens (snd (getDB Throws (loaded ([] :: unit StoredListing list)))))
       = Some (Connection 0)
   \<and> openDB_calls (snd (getDB Throws (snd (getDB Throws
        (loaded ([] :: unit StoredListing list)))))) = 2"
  by (simp add: store_eval)

text \<open>
  C9, as amended. When \<^verbatim>\<open>getDB\<close> resolves, \<^verbatim>\<open>saveListing\<close> sets \<^verbatim>\<open>updatedAt\<close> of its
  argument to the time of the save, and resolves unless the listing cannot be cloned;
  when \<^verbatim>\<open>getDB\<close> rejects, the call rejects with the argument as it was. In every
  case no other field of the argument is changed.
\<close>

theorem saveListing_argument:
  assumes "saveListing env now L s = (r, L', s')"
  shows "(await_db (fst (getDB env s)) = Inr db \<longrightarrow>
           L' = L\<lparr>updatedAt := Finite (of_int now)\<rparr>
           \<and> r = (if cloneable L then Inr () else Inl DataCloneError))
     \<and> (await_db (fst (getDB env s)) = Inl e \<longrightarrow> L' = L \<and> r = Inl e)
     \<and> L'\<lparr>updatedAt := u\<rparr> = L\<lparr>updatedAt := u\<rparr>"
proof (cases "await_db (fst (getDB env s))")
  case (Inl e')
  from saveListing_unavailable [OF Inl, of now L] assms show ?thesis using Inl by auto
next
  case (Inr db')
  from saveListing_connected [OF Inr, of now L] assms show ?thesis
    using Inr by (auto simp add: db_put_def split: if_splits)
qed

theorem saveListing_argument_witness:
  "await_db (fst (getDB Opens (loaded ([] :: unit StoredListing list)))) = Inr 0
   \<and> saveListing Opens 3000 (test_listing ''listing_1'' (Finite 1000) (Finite 1000)) (loaded [])
       = (Inr (), test_listing ''listing_1'' (Finite 1000) (Finite 3000),
          \<lparr>dbPromise = Some (Connection 0), opened = 1, openDB_calls = 1,
           listings = [test_listing ''listing_1'' (Finite 1000) (Finite 3000)]\<rparr>)
   \<and> saveListing Opens 3000
         ((test_listing ''listing_1'' (Finite 1000) (Finite 1000))\<lparr>facts := Some Function\<rparr>)
         (loaded [])
       = (Inl DataCloneError,
          (test_listing ''listing_1'' (Finite 1000) (Finite 3000))\<lparr>facts := Some Function\<rparr>,
          \<lparr>dbPromise = Some (Connection 0), opened = 1, openDB_calls = 1, listings = []\<rparr>)
   \<and> await_db (fst (getDB Rejects (loaded ([] :: unit StoredListing list))))
       = Inl StorageUnavailable
   \<and> saveListing Rejects 3000 (test_listing ''listing_1'' (Finite 1000) (Finite 1000))
         (loaded [])
       = (Inl StorageUnavailable, test_listing ''listing_1'' (Finite 1000) (Finite 1000),
          \<lparr>dbPromise = Some (Rejection 0), opened = 1, openDB_calls = 1, listings = []\<rparr>)"
proof -
  let ?L = "test_listing ''listing_1'' (Finite 1000) (Finite 1000)"
  have o: "await_db (fst (getDB Opens (loaded ([] :: unit StoredListing list)))) = Inr 0"
    and u: "await_db (fst (getDB Rejects (loaded ([] :: unit StoredListing list))))
       = Inl StorageUnavailable"
    by (simp_all add: store_eval)
  have h: "saveListing Opens 3000 ?L (loaded [])
       = (Inr (), test_listing ''listing_1'' (Finite 1000) (Finite 3000),
          \<lparr>dbPromise = Some (Connection 0), opened = 1, openDB_calls = 1,
           listings = [test_listing ''listing_1'' (Finite 1000) (Finite 3000)]\<rparr>)"
    by (simp add: store_eval)
  have g: "saveListing Opens 3000 (?L\<lparr>facts := Some Function\<rparr>) (loaded [])
       = (Inl DataCloneError,
          (test_listing ''listing_1'' (Finite 1000) (Finite 3000))\<lparr>facts := Some Function\<rparr>,
          \<lparr>dbPromise = Some (Connection 0), opened = 1, openDB_calls = 1, listings = []\<rparr>)"
    by (simp add: store_eval)
  have f: "saveListing Rejects 3000 ?L (loaded [])
       = (Inl StorageUnavailable, ?L,
          \<lparr>dbPromise = Some (Rejection 0), opened = 1, openDB_calls = 1, listings = []\<rparr>)"
    by (simp add: store_eval)
  from saveListing_argument [OF h, of 0] saveListing_argument [OF g, of 0]
    saveListing_argument [OF f, of _ StorageUnavailable]
  show ?thesis using o u h g f by simp
qed

text \<open>
  Where \<^verbatim>\<open>openDB\<close> throws, the call of \<^verbatim>\<open>saveListing\<close> at the time 3000 rejects before
  the assignment: \<^verbatim>\<open>updatedAt\<close> of the argument is still 1000.
\<close>

theorem saveListing_argument_untouched:
  "saveListing Throws 3000 (test_listing ''listing_1'' (Finite 1000) (Finite 1000)) (loaded [])
       = (Inl StorageUnavailable, test_listing ''listing_1'' (Finite 1000) (Finite 1000),
          \<lparr>dbPromise = None, opened = 0, openDB_calls = 1, listings = []\<rparr>)
   \<and> updatedAt (test_listing ''listing_1'' (Finite 1000) (Finite 1000)) \<noteq> Finite 3000"
  by (simp add: store_eval)

end
